theory Spec2Isabelle
  imports Complex_Main
begin

section \<open>Python floats\<close>

text \<open>
  The prices, the ATR, the multipliers and the lot size of the trading loop are Python
  floats (IEEE 754 binary64). A float is NaN, one of the two infinities, or a finite real.
  Every arithmetic operation returns the exact result rounded to the nearest double, ties
  to even: 53 significant bits, exponents down to the subnormal quantum \<open>2 ^ - 1074\<close>,
  overflow to an infinity from \<open>2 ^ 1024\<close> on. The two zeros are not told apart (they
  compare equal in Python), and there is one NaN.
\<close>

datatype pyfloat = NaN | NInf | Fin real | PInf

fun bit_length :: "nat \<Rightarrow> nat" where
  "bit_length n = (if n = 0 then 0 else Suc (bit_length (n div 2)))"

declare bit_length.simps [simp del]

definition pow2 :: "int \<Rightarrow> real" where
  "pow2 e = (if 0 \<le> e then 2 ^ nat e else 1 / 2 ^ nat (- e))"

text \<open>The binary exponent of a positive real: \<open>pow2 (ilog2 x) \<le> x < pow2 (ilog2 x + 1)\<close>.\<close>

definition ilog2 :: "real \<Rightarrow> int" where
  "ilog2 x = (if 1 \<le> x then int (bit_length (nat \<lfloor>x\<rfloor>)) - 1
              else - int (bit_length (nat (\<lceil>1 / x\<rceil> - 1))))"

definition round_half_even :: "real \<Rightarrow> int" where
  "round_half_even t = (let f = \<lfloor>t\<rfloor>; d = t - of_int f in
     if d < 1/2 then f else if 1/2 < d then f + 1 else if even f then f else f + 1)"

text \<open>Rounding a positive real to 53 bits (or to the subnormal quantum).\<close>

definition round_mag :: "real \<Rightarrow> real" where
  "round_mag x = (let e = max (ilog2 x) (- 1022); q = pow2 (e - 52)
                  in of_int (round_half_even (x / q)) * q)"

definition round_exact :: "real \<Rightarrow> real" where
  "round_exact x = (if x = 0 then 0 else if 0 < x then round_mag x else - round_mag (- x))"

definition overflow :: "real \<Rightarrow> pyfloat" where
  "overflow r = (if pow2 1024 \<le> r then PInf else if r \<le> - pow2 1024 then NInf else Fin r)"

definition round_double :: "real \<Rightarrow> pyfloat" where
  "round_double x = overflow (round_exact x)"

text \<open>A real is a double when rounding leaves it as it is.\<close>

definition is_double :: "real \<Rightarrow> bool" where
  "is_double x = (round_double x = Fin x)"

fun is_finite :: "pyfloat \<Rightarrow> bool" where
  "is_finite (Fin x) = True"
| "is_finite _ = False"

definition isnan :: "pyfloat \<Rightarrow> bool" where
  "isnan a = (a = NaN)"

fun fneg :: "pyfloat \<Rightarrow> pyfloat" where
  "fneg NaN = NaN"
| "fneg NInf = PInf"
| "fneg PInf = NInf"
| "fneg (Fin x) = Fin (- x)"

fun fadd :: "pyfloat \<Rightarrow> pyfloat \<Rightarrow> pyfloat" where
  "fadd NaN _ = NaN"
| "fadd _ NaN = NaN"
| "fadd PInf NInf = NaN"
| "fadd NInf PInf = NaN"
| "fadd PInf _ = PInf"
| "fadd NInf _ = NInf"
| "fadd _ PInf = PInf"
| "fadd _ NInf = NInf"
| "fadd (Fin x) (Fin y) = round_double (x + y)"

definition fsub :: "pyfloat \<Rightarrow> pyfloat \<Rightarrow> pyfloat" where
  "fsub a b = fadd a (fneg b)"

fun fsgn :: "pyfloat \<Rightarrow> int" where
  "fsgn NaN = 0"
| "fsgn NInf = - 1"
| "fsgn PInf = 1"
| "fsgn (Fin x) = (if x < 0 then - 1 else if x = 0 then 0 else 1)"

fun fmul :: "pyfloat \<Rightarrow> pyfloat \<Rightarrow> pyfloat" where
  "fmul NaN _ = NaN"
| "fmul _ NaN = NaN"
| "fmul (Fin x) (Fin y) = round_double (x * y)"
| "fmul a b = (if fsgn a * fsgn b = 0 then NaN else if 0 < fsgn a * fsgn b then PInf else NInf)"

text \<open>Comparisons: every comparison with NaN is false.\<close>

fun fle :: "pyfloat \<Rightarrow> pyfloat \<Rightarrow> bool" where
  "fle NaN _ = False"
| "fle _ NaN = False"
| "fle NInf _ = True"
| "fle _ PInf = True"
| "fle PInf _ = False"
| "fle _ NInf = False"
| "fle (Fin x) (Fin y) = (x \<le> y)"

fun flt :: "pyfloat \<Rightarrow> pyfloat \<Rightarrow> bool" where
  "flt NaN _ = False"
| "flt _ NaN = False"
| "flt PInf _ = False"
| "flt _ NInf = False"
| "flt NInf _ = True"
| "flt _ PInf = True"
| "flt (Fin x) (Fin y) = (x < y)"

section \<open>Data of the trading loop\<close>

text \<open>
  A \<open>datetime\<close> is a count of microseconds. \<open>timedelta.total_seconds()\<close> is the true
  division of the microseconds by \<open>10 ^ 6\<close>, a float.
\<close>

type_synonym datetime = int

definition total_seconds :: "int \<Rightarrow> pyfloat" where
  "total_seconds us = round_double (of_int us / 10 ^ 6)"

datatype exn = KeyboardInterrupt | Exception string

text \<open>The keys of \<open>CONFIG\<close> that the loop reads.\<close>

record config =
  symbol :: string
  timeframe :: int
  history_bars :: int
  min_seconds_between_trades :: pyfloat
  max_positions :: int
  atr_multiplier_sl :: pyfloat
  atr_multiplier_tp :: pyfloat
  dry_run :: bool

text \<open>A row of the data frame that \<open>calc_indicators\<close> returns; the last row is the latest bar.\<close>

record bar =
  close :: pyfloat
  atr :: pyfloat

record tick =
  bid :: pyfloat
  ask :: pyfloat

record order_request =
  req_symbol :: string
  req_side :: string
  req_volume :: pyfloat
  req_price :: pyfloat
  req_sl :: pyfloat
  req_tp :: pyfloat

record order_result =
  retcode :: int
  comment :: string
  order :: int

text \<open>
  What \<open>place_order\<close> returns: the broker's result (line 7), or the value of a return
  before line 2. The lines of \<open>place_order\<close> above \<open>mt5.order_send(request)\<close> are not in
  the source file; they raise, return, or build \<open>request\<close> and reach line 2.
\<close>

datatype place_result = Simulated | Broker order_result

datatype head_outcome = HeadRaises exn | HeadReturns place_result | HeadBuilds order_request

datatype line =
    Text string
  | SignalLine "string option"
  | OrderFailed int string
  | OrderPlaced int pyfloat pyfloat

text \<open>The effects of the loop, in the order in which they happen.\<close>

datatype event =
    ConnectMt5
  | DisconnectMt5
  | Print line
  | FetchOhlc string int int
  | CalcIndicators
  | GenerateSignal
  | CountOpenPositions string
  | SymbolInfoTick string
  | EstimateLots string pyfloat pyfloat
  | PlaceOrder string string pyfloat pyfloat pyfloat pyfloat
  | PlaceOrderReturn place_result
  | OrderSend order_request
  | Sleep nat

text \<open>
  The globals of the module that the source file reads and does not define: \<open>CONFIG\<close>,
  the broker library's \<open>TRADE_RETCODE_DONE\<close> and the head of \<open>place_order\<close>.
\<close>

record program =
  CONFIG :: config
  TRADE_RETCODE_DONE :: int
  place_order_head ::
    "string \<Rightarrow> string \<Rightarrow> pyfloat \<Rightarrow> pyfloat \<Rightarrow> pyfloat \<Rightarrow> pyfloat \<Rightarrow> head_outcome"

text \<open>
  What the collaborators answer in one iteration of the loop, one field per call, in the
  order of the calls: the value returned or the exception raised. \<open>now\<close> is the clock
  read on line 32, \<open>now_after_order\<close> the one read on line 79. \<open>sleep\<close> is the one
  \<open>time.sleep\<close> that ends the iteration.
\<close>

record responses =
  fetch_ohlc :: "exn option"
  calc_indicators :: "exn + bar list"
  generate_signal :: "exn + string option"
  now :: datetime
  count_open_positions :: "exn + int"
  symbol_info_tick :: "exn + tick"
  estimate_lots_by_sl :: "exn + pyfloat"
  order_send :: "exn + order_result"
  now_after_order :: datetime
  sleep :: "exn option"

datatype flow = Continue | Raise exn

record outcome =
  ctl :: flow
  last_trade_time :: "datetime option"
  events :: "event list"

section \<open>The program\<close>

text \<open>
  The source file holds the last lines of \<open>place_order\<close> (lines 2 to 7), \<open>main_loop\<close>
  (lines 15 to 88) and the start of the script (lines 93 to 95). Its lines carry no
  indentation; the blocks are the ones the statements allow: lines 48 to 79 use
  \<open>lots\<close>, \<open>entry_price\<close> and the levels, which exist only under
  \<open>if signal is not None\<close>, and the sleep of line 83 ends every iteration that has not
  left by \<open>continue\<close>. \<open>connect_mt5\<close>, \<open>fetch_ohlc\<close>, \<open>calc_indicators\<close>,
  \<open>generate_signal\<close>, \<open>count_open_positions\<close>, \<open>estimate_lots_by_sl\<close> and the broker
  library are called and not defined there: an iteration takes what they answer as its
  input.
\<close>

text \<open>
  \<open>place_order\<close>, lines 2 to 7 of the source after its head: one \<open>order_send\<close>, the
  return code compared with \<open>TRADE_RETCODE_DONE\<close>, one printed line, the result returned.
\<close>

definition place_order ::
  "program \<Rightarrow> responses \<Rightarrow> string \<Rightarrow> string \<Rightarrow> pyfloat \<Rightarrow> pyfloat \<Rightarrow> pyfloat \<Rightarrow> pyfloat
    \<Rightarrow> (exn + place_result) \<times> event list" where
  "place_order prog env symb side lots price sl tp =
     (case place_order_head prog symb side lots price sl tp of
        HeadRaises e \<Rightarrow> (Inl e, [])
      | HeadReturns r \<Rightarrow> (Inr r, [])
      | HeadBuilds request \<Rightarrow>
          (case order_send env of
             Inl e \<Rightarrow> (Inl e, [OrderSend request])
           | Inr result \<Rightarrow>
               (Inr (Broker result),
                [OrderSend request,
                 Print (if retcode result \<noteq> TRADE_RETCODE_DONE prog
                        then OrderFailed (retcode result) (comment result)
                        else OrderPlaced (order result) lots price)])))"

text \<open>
  Modelled from the spec: the head of \<open>place_order\<close> is missing from the source file. The
  spec says of it that the request carries symbol, side, volume, entry price, stop-loss
  and take-profit, and that with \<open>dryRun\<close> the executor does not invoke the real
  submission path and returns a simulated result marked as skipped.
\<close>

definition place_order_head_spec ::
  "bool \<Rightarrow> string \<Rightarrow> string \<Rightarrow> pyfloat \<Rightarrow> pyfloat \<Rightarrow> pyfloat \<Rightarrow> pyfloat \<Rightarrow> head_outcome" where
  "place_order_head_spec dry symb side lots price sl tp =
     (if dry then HeadReturns Simulated
      else HeadBuilds \<lparr>req_symbol = symb, req_side = side, req_volume = lots,
                       req_price = price, req_sl = sl, req_tp = tp\<rparr>)"

text \<open>
  Modelled from the spec: \<open>generate_signal\<close> is missing from the source file. The spec
  leaves its classification rule open and says that it outputs \<open>None\<close> whenever a
  required indicator value is NaN, non-finite or otherwise invalid; an indicator
  snapshot is invalid when a field is NaN or \<open>\<le> 0\<close>.
\<close>

definition indicator_invalid :: "pyfloat \<Rightarrow> bool" where
  "indicator_invalid v = (isnan v \<or> \<not> is_finite v \<or> fle v (Fin 0))"

definition generate_signal_spec :: "(bar list \<Rightarrow> string option) \<Rightarrow> bar list \<Rightarrow> string option" where
  "generate_signal_spec rule df =
     (if df \<noteq> [] \<and> indicator_invalid (atr (last df)) then None else rule df)"

text \<open>Line 33: \<open>last_trade_time and (now - last_trade_time).total_seconds() < CONFIG[...]\<close>.\<close>

definition throttled :: "config \<Rightarrow> datetime option \<Rightarrow> datetime \<Rightarrow> bool" where
  "throttled cfg ltt t_now =
     (case ltt of
        None \<Rightarrow> False
      | Some t \<Rightarrow> flt (total_seconds (t_now - t)) (min_seconds_between_trades cfg))"

text \<open>Lines 59 to 66: entry price, stop-loss and take-profit.\<close>

definition price_levels :: "config \<Rightarrow> string \<Rightarrow> tick \<Rightarrow> pyfloat \<Rightarrow> pyfloat \<times> pyfloat \<times> pyfloat" where
  "price_levels cfg signal tk atr_v =
     (if signal = ''buy''
      then (let entry_price = ask tk in
            (entry_price,
             fsub entry_price (fmul (atr_multiplier_sl cfg) atr_v),
             fadd entry_price (fmul (atr_multiplier_tp cfg) atr_v)))
      else (let entry_price = bid tk in
            (entry_price,
             fadd entry_price (fmul (atr_multiplier_sl cfg) atr_v),
             fsub entry_price (fmul (atr_multiplier_tp cfg) atr_v))))"

text \<open>The \<open>time.sleep\<close> that ends an iteration; an interrupt can arrive while it waits.\<close>

definition end_iteration :: "nat \<Rightarrow> responses \<Rightarrow> datetime option \<Rightarrow> event list \<Rightarrow> outcome" where
  "end_iteration secs env ltt evs =
     \<lparr>ctl = (case sleep env of None \<Rightarrow> Continue | Some e \<Rightarrow> Raise e),
      last_trade_time = ltt,
      events = evs @ [Sleep secs]\<rparr>"

definition raised :: "exn \<Rightarrow> datetime option \<Rightarrow> event list \<Rightarrow> outcome" where
  "raised e ltt evs = \<lparr>ctl = Raise e, last_trade_time = ltt, events = evs\<rparr>"

text \<open>
  Lines 48 to 83, the body of \<open>if signal is not None\<close> and the sleep after it.
  \<open>df.iloc[-1]\<close> raises on an empty frame.
\<close>

definition trade :: "program \<Rightarrow> responses \<Rightarrow> datetime option \<Rightarrow> bar list \<Rightarrow> string \<Rightarrow> outcome" where
  "trade prog env ltt df signal =
     (let cfg = CONFIG prog in
      if df = [] then raised (Exception ''IndexError'') ltt []
      else
        let last_bar = last df; atr_v = atr last_bar in
        if isnan atr_v \<or> fle atr_v (Fin 0)
        then end_iteration 5 env ltt [Print (Text ''Invalid ATR, skipping'')]
        else
          (case symbol_info_tick env of
             Inl e \<Rightarrow> raised e ltt [SymbolInfoTick (symbol cfg)]
           | Inr tk \<Rightarrow>
               (case price_levels cfg signal tk atr_v of
                  (entry_price, sl_price, tp_price) \<Rightarrow>
                    let evs = [SymbolInfoTick (symbol cfg),
                               EstimateLots (symbol cfg) entry_price sl_price] in
                    (case estimate_lots_by_sl env of
                       Inl e \<Rightarrow> raised e ltt evs
                     | Inr lots \<Rightarrow>
                         if fle lots (Fin 0)
                         then end_iteration 5 env ltt
                                (evs @ [Print (Text ''Calculated lots <= 0, skip'')])
                         else
                           let call = PlaceOrder (symbol cfg) signal lots entry_price sl_price tp_price in
                           (case place_order prog env (symbol cfg) signal lots
                                   entry_price sl_price tp_price of
                              (Inl e, pevs) \<Rightarrow> raised e ltt (evs @ [call] @ pevs)
                            | (Inr res, pevs) \<Rightarrow>
                                end_iteration 10 env (Some (now_after_order env))
                                  (evs @ [call] @ pevs @ [PlaceOrderReturn res]))))))"

definition after :: "event list \<Rightarrow> outcome \<Rightarrow> outcome" where
  "after evs out = out\<lparr>events := evs @ events out\<rparr>"

text \<open>Lines 23 to 83: one iteration of \<open>while True\<close>.\<close>

definition cycle :: "program \<Rightarrow> datetime option \<Rightarrow> responses \<Rightarrow> outcome" where
  "cycle prog ltt env =
     (let cfg = CONFIG prog;
          ev1 = [FetchOhlc (symbol cfg) (timeframe cfg) (history_bars cfg)] in
      case fetch_ohlc env of
        Some e \<Rightarrow> raised e ltt ev1
      | None \<Rightarrow>
          (case calc_indicators env of
             Inl e \<Rightarrow> raised e ltt (ev1 @ [CalcIndicators])
           | Inr df \<Rightarrow>
               (case generate_signal env of
                  Inl e \<Rightarrow> raised e ltt (ev1 @ [CalcIndicators, GenerateSignal])
                | Inr signal \<Rightarrow>
                    let ev2 = ev1 @ [CalcIndicators, GenerateSignal, Print (SignalLine signal)] in
                    if throttled cfg ltt (now env)
                    then end_iteration 5 env ltt
                           (ev2 @ [Print (Text ''Waiting due to min_seconds_between_trades'')])
                    else
                      let ev3 = ev2 @ [CountOpenPositions (symbol cfg)] in
                      (case count_open_positions env of
                         Inl e \<Rightarrow> raised e ltt ev3
                       | Inr open_pos \<Rightarrow>
                           if max_positions cfg \<le> open_pos
                           then end_iteration 5 env ltt
                                  (ev3 @ [Print (Text ''Max positions reached, skip'')])
                           else
                             (case signal of
                                None \<Rightarrow> end_iteration 10 env ltt ev3
                              | Some s \<Rightarrow> after ev3 (trade prog env ltt df s))))))"

text \<open>
  The \<open>while True\<close> of \<open>main_loop\<close> over the answers of the iterations so far. It ends
  only by an exception; \<open>None\<close> says that the loop is still running when the answers
  are used up.
\<close>

fun run_cycles :: "program \<Rightarrow> datetime option \<Rightarrow> responses list \<Rightarrow> (exn \<times> datetime option \<times> event list) option" where
  "run_cycles prog ltt [] = None"
| "run_cycles prog ltt (env # envs) =
     (let out = cycle prog ltt env in
      case ctl out of
        Raise e \<Rightarrow> Some (e, last_trade_time out, events out)
      | Continue \<Rightarrow>
          (case run_cycles prog (last_trade_time out) envs of
             None \<Rightarrow> None
           | Some (e, ltt', evs) \<Rightarrow> Some (e, ltt', events out @ evs)))"

datatype exit = Returned | Propagated exn

text \<open>
  Lines 15 to 88: \<open>connect_mt5\<close> before the \<open>try\<close>, the loop, the handler of
  \<open>KeyboardInterrupt\<close>, and the \<open>finally\<close> block.
\<close>

definition main_loop ::
  "program \<Rightarrow> exn option \<Rightarrow> exn option \<Rightarrow> datetime option \<Rightarrow> responses list
    \<Rightarrow> (exit \<times> datetime option \<times> event list) option" where
  "main_loop prog connect_mt5 disconnect_mt5 ltt envs =
     (case connect_mt5 of
        Some e \<Rightarrow> Some (Propagated e, ltt, [ConnectMt5])
      | None \<Rightarrow>
          (case run_cycles prog ltt envs of
             None \<Rightarrow> None
           | Some (e, ltt', evs) \<Rightarrow>
               let evs1 = [ConnectMt5, Print (Text ''Connected to MT5'')] @ evs
                          @ (if e = KeyboardInterrupt then [Print (Text ''Interrupted by user'')] else [])
                          @ [DisconnectMt5] in
               (case disconnect_mt5 of
                  Some e' \<Rightarrow> Some (Propagated e', ltt', evs1)
                | None \<Rightarrow>
                    Some (if e = KeyboardInterrupt then Returned else Propagated e, ltt',
                          evs1 @ [Print (Text ''Disconnected'')]))))"

section \<open>Observations on the events\<close>

fun is_quote_or_sizing :: "event \<Rightarrow> bool" where
  "is_quote_or_sizing (SymbolInfoTick _) = True"
| "is_quote_or_sizing (EstimateLots _ _ _) = True"
| "is_quote_or_sizing _ = False"

fun is_estimate_lots :: "event \<Rightarrow> bool" where
  "is_estimate_lots (EstimateLots _ _ _) = True"
| "is_estimate_lots _ = False"

fun is_submission :: "event \<Rightarrow> bool" where
  "is_submission (PlaceOrder _ _ _ _ _ _) = True"
| "is_submission (OrderSend _) = True"
| "is_submission _ = False"

fun is_order_send :: "event \<Rightarrow> bool" where
  "is_order_send (OrderSend _) = True"
| "is_order_send _ = False"

fun is_place_order_return :: "event \<Rightarrow> bool" where
  "is_place_order_return (PlaceOrderReturn _) = True"
| "is_place_order_return _ = False"

text \<open>The events end with the disconnect, or with the disconnect and the line printed after it.\<close>

definition released_at_exit :: "event list \<Rightarrow> bool" where
  "released_at_exit evs =
     (case rev evs of
        DisconnectMt5 # _ \<Rightarrow> True
      | Print (Text msg) # DisconnectMt5 # _ \<Rightarrow> msg = ''Disconnected''
      | _ \<Rightarrow> False)"

text \<open>
  A distance \<open>d\<close> is kept below (above) the double \<open>e\<close> when some double lies from
  \<open>e - d\<close> up to, and not at, \<open>e\<close> (after \<open>e\<close> and up to \<open>e + d\<close>): then the
  rounded difference (sum) cannot come back to \<open>e\<close>. An infinite distance is always kept.
\<close>

definition kept_below :: "real \<Rightarrow> pyfloat \<Rightarrow> bool" where
  "kept_below e d =
     (case d of
        PInf \<Rightarrow> True
      | Fin x \<Rightarrow> (\<exists>y. is_double y \<and> e - x \<le> y \<and> y < e)
      | _ \<Rightarrow> False)"

definition kept_above :: "real \<Rightarrow> pyfloat \<Rightarrow> bool" where
  "kept_above e d =
     (case d of
        PInf \<Rightarrow> True
      | Fin x \<Rightarrow> (\<exists>y. is_double y \<and> e < y \<and> y \<le> e + x)
      | _ \<Rightarrow> False)"

section \<open>Scenarios\<close>

definition cfg0 :: config where
  "cfg0 = \<lparr>symbol = ''USDJPY'', timeframe = 15, history_bars = 500,
           min_seconds_between_trades = Fin 60, max_positions = 1,
           atr_multiplier_sl = Fin (3 / 2), atr_multiplier_tp = Fin 3, dry_run = False\<rparr>"

definition send_head ::
  "string \<Rightarrow> string \<Rightarrow> pyfloat \<Rightarrow> pyfloat \<Rightarrow> pyfloat \<Rightarrow> pyfloat \<Rightarrow> head_outcome" where
  "send_head symb side lots price sl tp =
     HeadBuilds \<lparr>req_symbol = symb, req_side = side, req_volume = lots,
                 req_price = price, req_sl = sl, req_tp = tp\<rparr>"

definition prog0 :: program where
  "prog0 = \<lparr>CONFIG = cfg0, TRADE_RETCODE_DONE = 10009, place_order_head = send_head\<rparr>"

definition prog_dry :: program where
  "prog_dry = \<lparr>CONFIG = cfg0\<lparr>dry_run := True\<rparr>, TRADE_RETCODE_DONE = 10009,
               place_order_head = place_order_head_spec True\<rparr>"

definition tick0 :: tick where
  "tick0 = \<lparr>bid = Fin 150, ask = Fin 150\<rparr>"

definition result_done :: order_result where
  "result_done = \<lparr>retcode = 10009, comment = ''Request executed'', order = 7\<rparr>"

text \<open>An iteration with a buy signal, an ATR of 0.25, no open position and 0.5 lots.\<close>

definition env_buy :: responses where
  "env_buy = \<lparr>fetch_ohlc = None,
              calc_indicators = Inr [\<lparr>close = Fin 150, atr = Fin (1 / 4)\<rparr>],
              generate_signal = Inr (Some ''buy''),
              now = 100000000,
              count_open_positions = Inr 0,
              symbol_info_tick = Inr tick0,
              estimate_lots_by_sl = Inr (Fin (1 / 2)),
              order_send = Inr result_done,
              now_after_order = 100500000,
              sleep = None\<rparr>"


definition env_nan_atr :: responses where
  "env_nan_atr = env_buy\<lparr>calc_indicators := Inr [\<lparr>close = Fin 150, atr = NaN\<rparr>]\<rparr>"

definition env_inf_atr :: responses where
  "env_inf_atr = env_buy\<lparr>calc_indicators := Inr [\<lparr>close = Fin 150, atr = PInf\<rparr>]\<rparr>"

definition env_inf_atr_no_signal :: responses where
  "env_inf_atr_no_signal = env_inf_atr\<lparr>generate_signal := Inr None\<rparr>"

definition env_tiny_atr :: responses where
  "env_tiny_atr = env_buy\<lparr>calc_indicators := Inr [\<lparr>close = Fin 150, atr = Fin (1 / 2 ^ 50)\<rparr>]\<rparr>"

definition env_full :: responses where
  "env_full = env_buy\<lparr>count_open_positions := Inr 1\<rparr>"

definition env_zero_lots :: responses where
  "env_zero_lots = env_buy\<lparr>estimate_lots_by_sl := Inr (Fin 0)\<rparr>"

definition env_rejected :: responses where
  "env_rejected = env_buy\<lparr>order_send :=
     Inr \<lparr>retcode = 10030, comment = ''Unsupported filling mode'', order = 0\<rparr>\<rparr>"

definition env_interrupted :: responses where
  "env_interrupted = env_buy\<lparr>sleep := Some KeyboardInterrupt\<rparr>"

definition prog_never :: program where
  "prog_never = prog0\<lparr>CONFIG := cfg0\<lparr>min_seconds_between_trades := PInf\<rparr>\<rparr>"

section \<open>Rounding to a double is monotone\<close>

lemma bit_length_bounds: "0 < n \<Longrightarrow> 2 ^ (bit_length n - 1) \<le> n \<and> n < 2 ^ bit_length n"
proof (induction n rule: bit_length.induct)
  case (1 n)
  show ?case
  proof (cases "n div 2 = 0")
    case True
    with "1.prems" have "n = 1" by auto
    then show ?thesis by (simp add: bit_length.simps)
  next
    case False
    with "1.IH" "1.prems" have IH: "2 ^ (bit_length (n div 2) - 1) \<le> n div 2" "n div 2 < 2 ^ bit_length (n div 2)"
      by auto
    from False have pos: "0 < bit_length (n div 2)" by (simp add: bit_length.simps[of "n div 2"])
    have eq: "bit_length n = Suc (bit_length (n div 2))" using "1.prems" by (simp add: bit_length.simps[of n])
    have "2 * 2 ^ (bit_length (n div 2) - 1) \<le> n" using IH(1) by linarith
    moreover have "2 * 2 ^ (bit_length (n div 2) - 1) = (2::nat) ^ bit_length (n div 2)"
      using pos by (cases "bit_length (n div 2)") auto
    moreover have "n < 2 * 2 ^ bit_length (n div 2)" using IH(2) by linarith
    ultimately show ?thesis by (simp add: eq)
  qed
qed

lemma pow2_powi: "pow2 e = 2 powi e"
  by (simp add: pow2_def power_int_def power_one_over inverse_eq_divide)

lemma pow2_pos: "0 < pow2 e" by (simp add: pow2_powi)

lemma pow2_add: "pow2 (a + b) = pow2 a * pow2 b"
  by (simp add: pow2_powi power_int_add)

lemma pow2_mono: "a \<le> b \<Longrightarrow> pow2 a \<le> pow2 b"
  by (simp add: pow2_powi power_int_increasing)

lemma pow2_less_cancel: "pow2 a < pow2 b \<Longrightarrow> a < b"
  using pow2_mono[of b a] by (cases "a < b") auto

lemma pow2_nat: "pow2 (int n) = 2 ^ n" by (simp add: pow2_def)

lemma bit_length_bounds_real:
  assumes "0 < n"
  shows "2 ^ (bit_length n - 1) \<le> real n" and "real n + 1 \<le> 2 ^ bit_length n"
proof -
  from bit_length_bounds[OF assms] have b: "2 ^ (bit_length n - 1) \<le> n" "Suc n \<le> 2 ^ bit_length n"
    by auto
  have "real (2 ^ (bit_length n - 1)) \<le> real n" using b(1) by (rule of_nat_mono)
  then show "2 ^ (bit_length n - 1) \<le> real n" by (simp only: of_nat_power of_nat_numeral)
  have "real (Suc n) \<le> real (2 ^ bit_length n)" using b(2) by (rule of_nat_mono)
  then have "real (Suc n) \<le> 2 ^ bit_length n" by (simp only: of_nat_power of_nat_numeral)
  then show "real n + 1 \<le> 2 ^ bit_length n" by simp
qed

lemma bit_length_pos: "0 < n \<Longrightarrow> 0 < bit_length n"
  by (simp add: bit_length.simps[of n])

lemma ilog2_bounds:
  assumes "0 < x"
  shows "pow2 (ilog2 x) \<le> x \<and> x < pow2 (ilog2 x + 1)"
proof (cases "1 \<le> x")
  case True
  define n where "n = nat \<lfloor>x\<rfloor>"
  have n1: "0 < n" using True by (simp add: n_def)
  have nr: "real n = of_int \<lfloor>x\<rfloor>" using True by (simp add: n_def)
  have nx: "real n \<le> x" "x < real n + 1" unfolding nr by linarith+
  note b = bit_length_bounds_real[OF n1]
  have bp: "0 < bit_length n" using n1 by (rule bit_length_pos)
  have e: "ilog2 x = int (bit_length n - 1)" using True bp by (simp add: ilog2_def n_def)
  have e1: "ilog2 x + 1 = int (bit_length n)" using bp by (simp add: e)
  have lo: "pow2 (ilog2 x) \<le> x" unfolding e pow2_nat using b(1) nx(1) by linarith
  have hi: "x < pow2 (ilog2 x + 1)" unfolding e1 pow2_nat using b(2) nx(2) by linarith
  from lo hi show ?thesis by simp
next
  case False
  define y where "y = 1 / x"
  have y1: "1 < y" using False assms by (simp add: y_def)
  have xy: "x = 1 / y" by (simp add: y_def)
  define m where "m = nat (\<lceil>y\<rceil> - 1)"
  have m1: "0 < m" using y1 by (simp add: m_def)
  have mr: "real m = of_int \<lceil>y\<rceil> - 1" using y1 by (simp add: m_def)
  have my: "real m < y" "y \<le> real m + 1" unfolding mr by linarith+
  note b = bit_length_bounds_real[OF m1]
  have bp: "0 < bit_length m" using m1 by (rule bit_length_pos)
  have e: "ilog2 x = - int (bit_length m)" using False by (simp add: ilog2_def m_def y_def)
  have p0: "pow2 (ilog2 x) = 1 / 2 ^ bit_length m" using bp by (simp add: e pow2_def)
  have p1: "pow2 (ilog2 x + 1) = 1 / 2 ^ (bit_length m - 1)"
  proof (cases "bit_length m = 1")
    case True then show ?thesis by (simp add: e pow2_def)
  next
    case False
    with bp have "nat (int (bit_length m) - 1) = bit_length m - 1" "\<not> int (bit_length m) \<le> 1" by auto
    then show ?thesis by (simp add: e pow2_def)
  qed
  have "y \<le> 2 ^ bit_length m" using b(2) my(2) by linarith
  then have "1 / 2 ^ bit_length m \<le> 1 / y" using y1 by (intro divide_left_mono) auto
  then have lo: "pow2 (ilog2 x) \<le> x" unfolding p0 using xy by simp
  have "2 ^ (bit_length m - 1) < y" using b(1) my(1) by linarith
  then have "1 / y < 1 / 2 ^ (bit_length m - 1)" using y1 by (intro divide_strict_left_mono) auto
  then have hi: "x < pow2 (ilog2 x + 1)" unfolding p1 using xy by simp
  from lo hi show ?thesis by simp
qed

lemma ilog2_unique:
  assumes "pow2 e \<le> x" "x < pow2 (e + 1)"
  shows "ilog2 x = e"
proof -
  have x0: "0 < x" using assms(1) pow2_pos[of e] by linarith
  from ilog2_bounds[OF x0] have b: "pow2 (ilog2 x) \<le> x" "x < pow2 (ilog2 x + 1)" by auto
  have "pow2 e < pow2 (ilog2 x + 1)" using assms(1) b(2) by linarith
  then have "e < ilog2 x + 1" by (rule pow2_less_cancel)
  moreover have "pow2 (ilog2 x) < pow2 (e + 1)" using assms(2) b(1) by linarith
  then have "ilog2 x < e + 1" by (rule pow2_less_cancel)
  ultimately show ?thesis by simp
qed

lemma ilog2_mono:
  assumes "0 < x" "x \<le> y"
  shows "ilog2 x \<le> ilog2 y"
proof -
  have y0: "0 < y" using assms by linarith
  have "pow2 (ilog2 x) < pow2 (ilog2 y + 1)"
    using ilog2_bounds[OF assms(1)] ilog2_bounds[OF y0] assms(2) by linarith
  then have "ilog2 x < ilog2 y + 1" by (rule pow2_less_cancel)
  then show ?thesis by simp
qed

lemma round_half_even_range: "round_half_even t = \<lfloor>t\<rfloor> \<or> round_half_even t = \<lfloor>t\<rfloor> + 1"
  by (simp add: round_half_even_def Let_def)

lemma round_half_even_of_int: "round_half_even (of_int k) = k"
  by (simp add: round_half_even_def Let_def)

lemma round_half_even_mono:
  assumes "s \<le> t"
  shows "round_half_even s \<le> round_half_even t"
proof (cases "\<lfloor>s\<rfloor> = \<lfloor>t\<rfloor>")
  case True
  then show ?thesis using assms by (auto simp add: round_half_even_def Let_def)
next
  case False
  with assms have "\<lfloor>s\<rfloor> + 1 \<le> \<lfloor>t\<rfloor>" using floor_mono[OF assms] by linarith
  moreover have "round_half_even s \<le> \<lfloor>s\<rfloor> + 1" using round_half_even_range[of s] by auto
  moreover have "\<lfloor>t\<rfloor> \<le> round_half_even t" using round_half_even_range[of t] by auto
  ultimately show ?thesis by linarith
qed


lemma pow2_53: "pow2 (e + 1) = 2 ^ 53 * pow2 (e - 52)"
proof -
  have "e + 1 = 53 + (e - 52)" by simp
  then have "pow2 (e + 1) = pow2 53 * pow2 (e - 52)" by (simp only: pow2_add)
  then show ?thesis by (simp add: pow2_def)
qed

lemma pow2_52: "pow2 e = 2 ^ 52 * pow2 (e - 52)"
proof -
  have "pow2 e = pow2 52 * pow2 (e - 52)" using pow2_add[of 52 "e - 52"] by simp
  then show ?thesis by (simp add: pow2_def)
qed

lemma round_mag_upper:
  assumes "0 < x"
  shows "round_mag x \<le> pow2 (max (ilog2 x) (- 1022) + 1)"
proof -
  define e where "e = max (ilog2 x) (- 1022)"
  define q where "q = pow2 (e - 52)"
  have q0: "0 < q" by (simp add: q_def pow2_pos)
  have "x < pow2 (ilog2 x + 1)" using ilog2_bounds[OF assms] by simp
  also have "\<dots> \<le> pow2 (e + 1)" by (rule pow2_mono) (simp add: e_def)
  finally have "x < 2 ^ 53 * q" by (simp add: pow2_53 q_def)
  then have "x / q \<le> of_int (2 ^ 53)" using q0 by (simp add: field_simps)
  then have "round_half_even (x / q) \<le> round_half_even (of_int (2 ^ 53))"
    by (rule round_half_even_mono)
  then have "round_half_even (x / q) \<le> 2 ^ 53" by (simp only: round_half_even_of_int)
  then have "real_of_int (round_half_even (x / q)) \<le> real_of_int (2 ^ 53)"
    by (simp only: of_int_le_iff)
  then have "real_of_int (round_half_even (x / q)) \<le> 2 ^ 53" by simp
  then have "real_of_int (round_half_even (x / q)) * q \<le> 2 ^ 53 * q"
    using q0 by (simp add: mult_right_mono)
  then show ?thesis by (simp add: round_mag_def Let_def pow2_53 flip: e_def q_def)
qed

lemma round_mag_lower:
  assumes "pow2 (max (ilog2 x) (- 1022)) \<le> x"
  shows "pow2 (max (ilog2 x) (- 1022)) \<le> round_mag x"
proof -
  define e where "e = max (ilog2 x) (- 1022)"
  define q where "q = pow2 (e - 52)"
  have q0: "0 < q" by (simp add: q_def pow2_pos)
  have "2 ^ 52 * q \<le> x" using assms by (simp add: pow2_52[of e] flip: e_def q_def)
  then have "of_int (2 ^ 52) \<le> x / q" using q0 by (simp add: field_simps)
  then have "round_half_even (of_int (2 ^ 52)) \<le> round_half_even (x / q)"
    by (rule round_half_even_mono)
  then have "2 ^ 52 \<le> round_half_even (x / q)" by (simp only: round_half_even_of_int)
  then have "real_of_int (2 ^ 52) \<le> real_of_int (round_half_even (x / q))"
    by (simp only: of_int_le_iff)
  then have "2 ^ 52 \<le> real_of_int (round_half_even (x / q))" by simp
  then have "2 ^ 52 * q \<le> real_of_int (round_half_even (x / q)) * q"
    using q0 by (simp add: mult_right_mono)
  then show ?thesis by (simp add: round_mag_def Let_def pow2_52[of e] flip: e_def q_def)
qed

lemma round_mag_nonneg:
  assumes "0 < x"
  shows "0 \<le> round_mag x"
proof -
  define q where "q = pow2 (max (ilog2 x) (- 1022) - 52)"
  have q0: "0 < q" by (simp add: q_def pow2_pos)
  have "of_int 0 \<le> x / q" using assms q0 by simp
  then have "round_half_even (of_int 0) \<le> round_half_even (x / q)"
    by (rule round_half_even_mono)
  then have "0 \<le> round_half_even (x / q)" by (simp only: round_half_even_of_int)
  then show ?thesis using q0 by (simp add: round_mag_def Let_def flip: q_def)
qed

lemma round_mag_mono:
  assumes "0 < x" "x \<le> y"
  shows "round_mag x \<le> round_mag y"
proof -
  define ex where "ex = max (ilog2 x) (- 1022)"
  define ey where "ey = max (ilog2 y) (- 1022)"
  have y0: "0 < y" using assms by linarith
  have le: "ex \<le> ey" using ilog2_mono[OF assms] by (simp add: ex_def ey_def)
  show ?thesis
  proof (cases "ex = ey")
    case True
    define q where "q = pow2 (ex - 52)"
    have q0: "0 < q" by (simp add: q_def pow2_pos)
    have "x / q \<le> y / q" using assms(2) q0 by (simp add: divide_right_mono)
    then have "round_half_even (x / q) \<le> round_half_even (y / q)"
      by (rule round_half_even_mono)
    then have "real_of_int (round_half_even (x / q)) * q \<le> real_of_int (round_half_even (y / q)) * q"
      using q0 by (simp add: mult_right_mono)
    moreover have "round_mag x = real_of_int (round_half_even (x / q)) * q"
      by (simp add: round_mag_def Let_def q_def ex_def)
    moreover have "round_mag y = real_of_int (round_half_even (y / q)) * q"
      unfolding q_def True by (simp add: round_mag_def Let_def ey_def)
    ultimately show ?thesis by simp
  next
    case False
    with le have lt: "ex + 1 \<le> ey" by simp
    then have "ey = ilog2 y" by (simp add: ex_def ey_def)
    then have "pow2 ey \<le> y" using ilog2_bounds[OF y0] by simp
    then have "pow2 ey \<le> round_mag y" unfolding ey_def by (rule round_mag_lower)
    moreover have "round_mag x \<le> pow2 (ex + 1)" unfolding ex_def by (rule round_mag_upper[OF assms(1)])
    moreover have "pow2 (ex + 1) \<le> pow2 ey" using lt by (rule pow2_mono)
    ultimately show ?thesis by linarith
  qed
qed

lemma round_exact_mono:
  assumes "x \<le> y"
  shows "round_exact x \<le> round_exact y"
proof -
  consider "0 < x" | "x = 0" | "x < 0" "y < 0" | "x < 0" "0 \<le> y" by linarith
  then show ?thesis
  proof cases
    case 1
    then show ?thesis using assms round_mag_mono[of x y] by (simp add: round_exact_def)
  next
    case 2
    then show ?thesis using assms round_mag_nonneg[of y] by (auto simp add: round_exact_def)
  next
    case 3
    then show ?thesis using assms round_mag_mono[of "- y" "- x"] by (simp add: round_exact_def)
  next
    case 4
    then show ?thesis using round_mag_nonneg[of y] round_mag_nonneg[of "- x"]
      by (auto simp add: round_exact_def)
  qed
qed

lemma overflow_mono: "a \<le> b \<Longrightarrow> fle (overflow a) (overflow b)"
  using pow2_pos[of 1024] by (auto simp add: overflow_def)

lemma round_double_mono: "x \<le> y \<Longrightarrow> fle (round_double x) (round_double y)"
  unfolding round_double_def by (intro overflow_mono round_exact_mono)

lemma round_double_0: "round_double 0 = Fin 0"
  using pow2_pos[of 1024] by (simp add: round_double_def round_exact_def overflow_def)

lemma fmul_positive:
  assumes "flt (Fin 0) a" "flt (Fin 0) b"
  shows "fle (Fin 0) (fmul a b)"
proof (cases a)
  case (Fin x)
  note a = this
  show ?thesis
  proof (cases b)
    case (Fin y)
    with a assms have "0 \<le> x * y" by simp
    then have "fle (round_double 0) (round_double (x * y))" by (rule round_double_mono)
    then show ?thesis by (simp add: a Fin round_double_0)
  qed (use a assms in auto)
qed (use assms in \<open>cases b; auto\<close>)+

lemma fsub_le:
  assumes "is_double e" "fle (Fin 0) d"
  shows "fle (fsub (Fin e) d) (Fin e)"
proof (cases d)
  case (Fin x)
  with assms(2) have "e - x \<le> e" by simp
  then have "fle (round_double (e - x)) (round_double e)" by (rule round_double_mono)
  then show ?thesis using assms(1) by (simp add: Fin fsub_def is_double_def)
qed (use assms in \<open>auto simp: fsub_def\<close>)

lemma fadd_ge:
  assumes "is_double e" "fle (Fin 0) d"
  shows "fle (Fin e) (fadd (Fin e) d)"
proof (cases d)
  case (Fin x)
  with assms(2) have "e \<le> e + x" by simp
  then have "fle (round_double e) (round_double (e + x))" by (rule round_double_mono)
  then show ?thesis using assms(1) by (simp add: Fin is_double_def)
qed (use assms in auto)

lemmas float_eval = round_double_def round_exact_def round_mag_def overflow_def ilog2_def
  round_half_even_def pow2_def bit_length.simps Let_def total_seconds_def is_double_def fsub_def
  isnan_def

text \<open>
  The model on values known from Python: the literal \<open>0.1\<close>, \<open>0.1 + 0.2\<close> (which is
  \<open>0.30000000000000004\<close>), and \<open>1e16 + 1 == 1e16\<close>.
\<close>

lemma float_tenth: "round_double (1 / 10) = Fin (3602879701896397 / 36028797018963968)"
  by (simp add: float_eval)

lemma float_tenth_plus_fifth:
  "fadd (round_double (1 / 10)) (round_double (2 / 10)) = Fin (1351079888211149 / 4503599627370496)"
  by (simp add: float_eval)

lemma float_absorbs_one: "fadd (Fin (10 ^ 16)) (Fin 1) = Fin (10 ^ 16)"
  by (simp add: float_eval)

lemmas scenario_defs = cfg0_def prog0_def env_buy_def tick0_def result_done_def send_head_def

lemmas run_defs = cycle_def trade_def end_iteration_def raised_def after_def place_order_def
  price_levels_def throttled_def

section \<open>Claims about the iteration gates\<close>

lemma place_order_events:
  "place_order prog env symb side lots price sl tp = (r, pevs) \<Longrightarrow>
     \<not> list_ex is_place_order_return pevs"
  by (auto simp add: place_order_def split: head_outcome.splits sum.splits)

lemma trade_no_submission_unless:
  assumes "df \<noteq> []" "isnan (atr (last df)) \<or> fle (atr (last df)) (Fin 0)"
  shows "events (trade prog env ltt df s) = [Print (Text ''Invalid ATR, skipping''), Sleep 5]
         \<and> last_trade_time (trade prog env ltt df s) = ltt"
  using assms by (simp add: trade_def end_iteration_def Let_def)

lemma invalid_atr_guard:
  assumes "calc_indicators env = Inr df" "df \<noteq> []"
    and "isnan (atr (last df)) \<or> fle (atr (last df)) (Fin 0)"
  shows "\<not> list_ex is_quote_or_sizing (events (cycle prog ltt env))
       \<and> \<not> list_ex is_submission (events (cycle prog ltt env))
       \<and> last_trade_time (cycle prog ltt env) = ltt"
  using assms trade_no_submission_unless[OF assms(2,3)]
  by (simp add: cycle_def end_iteration_def raised_def after_def Let_def
      split: option.splits sum.splits)

lemma no_signal_no_order:
  assumes "\<And>s. generate_signal env = Inr s \<Longrightarrow> s = None"
  shows "\<not> list_ex is_quote_or_sizing (events (cycle prog ltt env))
       \<and> \<not> list_ex is_submission (events (cycle prog ltt env))
       \<and> last_trade_time (cycle prog ltt env) = ltt"
proof (cases "generate_signal env")
  case (Inl e)
  then show ?thesis
    by (simp add: cycle_def end_iteration_def raised_def after_def Let_def
        split: option.splits sum.splits)
next
  case (Inr s)
  with assms have "generate_signal env = Inr None" by simp
  then show ?thesis
    by (simp add: cycle_def end_iteration_def raised_def after_def Let_def
        split: option.splits sum.splits)
qed

lemma indicator_invalid_cases:
  "indicator_invalid v \<Longrightarrow> isnan v \<or> fle v (Fin 0) \<or> v = PInf"
  by (cases v) (simp_all add: indicator_invalid_def isnan_def)

text \<open>
  The guard of lines 53 to 56 alone lets an ATR of plus infinity pass: if a signal comes
  with it, the iteration goes on to the quote and the sizing, and to the order when the
  size is positive. The loop relies on \<open>generate_signal\<close> for that case.
\<close>

lemma guard_admits_infinite_atr:
  "calc_indicators env_inf_atr = Inr [\<lparr>close = Fin 150, atr = PInf\<rparr>]
   \<and> EstimateLots ''USDJPY'' (Fin 150) NInf \<in> set (events (cycle prog0 None env_inf_atr))
   \<and> PlaceOrder ''USDJPY'' ''buy'' (Fin (1 / 2)) (Fin 150) NInf PInf
        \<in> set (events (cycle prog0 None env_inf_atr))"
  by (simp add: env_inf_atr_def run_defs scenario_defs float_eval)

text \<open>
  Claim C1: when the ATR of the latest bar is NaN, non-finite or \<open>\<le> 0\<close>, the iteration
  fetches no quote, computes no size, calls neither \<open>place_order\<close> nor \<open>order_send\<close> (so
  no request is built), and leaves \<open>last_trade_time\<close> as it was. For NaN and for every
  value \<open>\<le> 0\<close>, minus infinity included, this is the guard of lines 53 to 56, whatever
  the signal is. For plus infinity, which the guard lets pass, it holds when
  \<open>generate_signal\<close> answers as the spec requires of it.
\<close>

theorem invalid_atr_no_order:
  assumes "calc_indicators env = Inr df" and "df \<noteq> []"
    and "indicator_invalid (atr (last df))"
    and "\<And>s. atr (last df) = PInf \<Longrightarrow> generate_signal env = Inr s
           \<Longrightarrow> s = generate_signal_spec rule df"
  shows "\<not> list_ex is_quote_or_sizing (events (cycle prog ltt env))
       \<and> \<not> list_ex is_submission (events (cycle prog ltt env))
       \<and> last_trade_time (cycle prog ltt env) = ltt"
proof (cases "isnan (atr (last df)) \<or> fle (atr (last df)) (Fin 0)")
  case True
  with assms(1,2) show ?thesis by (rule invalid_atr_guard)
next
  case False
  with assms(3) have inf: "atr (last df) = PInf"
    using indicator_invalid_cases by blast
  have "generate_signal_spec rule df = None"
    using assms(2,3) by (simp add: generate_signal_spec_def)
  with assms(4)[OF inf] have "\<And>s. generate_signal env = Inr s \<Longrightarrow> s = None" by simp
  then show ?thesis by (rule no_signal_no_order)
qed

theorem invalid_atr_no_order_witness:
  "(\<not> list_ex is_quote_or_sizing (events (cycle prog0 None env_nan_atr))
    \<and> \<not> list_ex is_submission (events (cycle prog0 None env_nan_atr))
    \<and> last_trade_time (cycle prog0 None env_nan_atr) = None)
   \<and> (\<not> list_ex is_quote_or_sizing (events (cycle prog0 None env_inf_atr_no_signal))
    \<and> \<not> list_ex is_submission (events (cycle prog0 None env_inf_atr_no_signal))
    \<and> last_trade_time (cycle prog0 None env_inf_atr_no_signal) = None)"
proof
  show "\<not> list_ex is_quote_or_sizing (events (cycle prog0 None env_nan_atr))
    \<and> \<not> list_ex is_submission (events (cycle prog0 None env_nan_atr))
    \<and> last_trade_time (cycle prog0 None env_nan_atr) = None"
    by (rule invalid_atr_no_order[where df = "[\<lparr>close = Fin 150, atr = NaN\<rparr>]"
          and rule = "\<lambda>df. Some ''buy''"])
       (simp_all add: env_nan_atr_def env_buy_def indicator_invalid_def isnan_def)
  show "\<not> list_ex is_quote_or_sizing (events (cycle prog0 None env_inf_atr_no_signal))
    \<and> \<not> list_ex is_submission (events (cycle prog0 None env_inf_atr_no_signal))
    \<and> last_trade_time (cycle prog0 None env_inf_atr_no_signal) = None"
    by (rule invalid_atr_no_order[where df = "[\<lparr>close = Fin 150, atr = PInf\<rparr>]"
          and rule = "\<lambda>df. Some ''buy''"])
       (simp_all add: env_inf_atr_no_signal_def env_inf_atr_def env_buy_def
          indicator_invalid_def isnan_def generate_signal_spec_def)
qed

text \<open>
  Claim C2: when \<open>last_trade_time\<close> is set and
  \<open>(now - last_trade_time).total_seconds() < min_seconds_between_trades\<close>, the iteration
  fetches no quote, computes no size, calls neither \<open>place_order\<close> nor \<open>order_send\<close>,
  and leaves \<open>last_trade_time\<close> as it was.
\<close>

theorem throttle_skips_cycle:
  assumes "ltt = Some t"
    and "flt (total_seconds (now env - t)) (min_seconds_between_trades (CONFIG prog))"
  shows "\<not> list_ex is_quote_or_sizing (events (cycle prog ltt env))
       \<and> \<not> list_ex is_submission (events (cycle prog ltt env))
       \<and> last_trade_time (cycle prog ltt env) = ltt"
  using assms
  by (simp add: cycle_def throttled_def end_iteration_def raised_def after_def Let_def
      split: option.splits sum.splits)

theorem throttle_skips_cycle_witness:
  "\<not> list_ex is_quote_or_sizing (events (cycle prog0 (Some 99000000) env_buy))
   \<and> \<not> list_ex is_submission (events (cycle prog0 (Some 99000000) env_buy))
   \<and> last_trade_time (cycle prog0 (Some 99000000) env_buy) = Some 99000000"
  by (rule throttle_skips_cycle[where t = 99000000])
     (simp_all add: scenario_defs float_eval)

text \<open>
  Claim C3: when the count of open positions of the symbol is at least \<open>max_positions\<close>,
  the iteration fetches no quote, computes no size, calls neither \<open>place_order\<close> nor
  \<open>order_send\<close>, and leaves \<open>last_trade_time\<close> as it was.
\<close>

theorem max_positions_skips_cycle:
  assumes "count_open_positions env = Inr n"
    and "max_positions (CONFIG prog) \<le> n"
  shows "\<not> list_ex is_quote_or_sizing (events (cycle prog ltt env))
       \<and> \<not> list_ex is_submission (events (cycle prog ltt env))
       \<and> last_trade_time (cycle prog ltt env) = ltt"
  using assms
  by (simp add: cycle_def end_iteration_def raised_def after_def Let_def
      split: option.splits sum.splits)

theorem max_positions_skips_cycle_witness:
  "\<not> list_ex is_quote_or_sizing (events (cycle prog0 None env_full))
   \<and> \<not> list_ex is_submission (events (cycle prog0 None env_full))
   \<and> last_trade_time (cycle prog0 None env_full) = None"
  by (rule max_positions_skips_cycle[where n = 1])
     (simp_all add: env_full_def scenario_defs)

section \<open>Claims about the price levels and the order\<close>

text \<open>
  An entry price that is NaN makes both levels NaN, and no comparison with NaN holds: the
  bracket needs a finite quote.
\<close>

lemma price_levels_nan_quote:
  "price_levels cfg0 ''buy'' \<lparr>bid = NaN, ask = NaN\<rparr> (Fin (1 / 4)) = (NaN, NaN, NaN)
   \<and> \<not> fle NaN NaN"
  by (simp add: price_levels_def cfg0_def float_eval)

lemma fsub_lt:
  assumes "is_double e" "kept_below e d"
  shows "flt (fsub (Fin e) d) (Fin e)"
proof (cases d)
  case (Fin x)
  with assms(2) obtain y where y: "is_double y" "e - x \<le> y" "y < e"
    by (auto simp add: kept_below_def)
  from y(2) have "fle (round_double (e - x)) (round_double y)" by (rule round_double_mono)
  with y(1) have "fle (round_double (e - x)) (Fin y)" by (simp add: is_double_def)
  with y(3) have "flt (round_double (e - x)) (Fin e)"
    by (cases "round_double (e - x)") simp_all
  then show ?thesis by (simp add: Fin fsub_def)
qed (use assms in \<open>auto simp: fsub_def kept_below_def\<close>)

lemma fadd_gt:
  assumes "is_double e" "kept_above e d"
  shows "flt (Fin e) (fadd (Fin e) d)"
proof (cases d)
  case (Fin x)
  with assms(2) obtain y where y: "is_double y" "e < y" "y \<le> e + x"
    by (auto simp add: kept_above_def)
  from y(3) have "fle (round_double y) (round_double (e + x))" by (rule round_double_mono)
  with y(1) have "fle (Fin y) (round_double (e + x))" by (simp add: is_double_def)
  with y(2) have "flt (Fin e) (round_double (e + x))"
    by (cases "round_double (e + x)") simp_all
  then show ?thesis by (simp add: Fin)
qed (use assms in \<open>auto simp: kept_above_def\<close>)

lemma kept_belowI: "d = Fin x \<Longrightarrow> is_double y \<Longrightarrow> e - x \<le> y \<Longrightarrow> y < e \<Longrightarrow> kept_below e d"
  by (auto simp add: kept_below_def)

lemma kept_aboveI: "d = Fin x \<Longrightarrow> is_double y \<Longrightarrow> e < y \<Longrightarrow> y \<le> e + x \<Longrightarrow> kept_above e d"
  by (auto simp add: kept_above_def)

text \<open>
  Claim C4, as the code has it: with a finite entry price, an ATR above 0 and stop and
  target multipliers above 0, a buy has \<open>sl_price \<le> entry_price \<le> tp_price\<close> and a sell
  has \<open>tp_price \<le> entry_price \<le> sl_price\<close>, and each of the four inequalities is strict
  where the distance (multiplier times ATR, as computed) is kept on that side of the
  entry price. It is not strict where the distance is lost in the rounding of the
  difference or the sum, as the counterexample after the theorem shows.
\<close>

theorem price_levels_bracket:
  assumes "is_double e" and "flt (Fin 0) atr_v"
    and "flt (Fin 0) (atr_multiplier_sl cfg)" and "flt (Fin 0) (atr_multiplier_tp cfg)"
  shows "(case price_levels cfg ''buy'' \<lparr>bid = b, ask = Fin e\<rparr> atr_v of
            (entry_price, sl_price, tp_price) \<Rightarrow>
              entry_price = Fin e \<and> fle sl_price entry_price \<and> fle entry_price tp_price
              \<and> (kept_below e (fmul (atr_multiplier_sl cfg) atr_v) \<longrightarrow> flt sl_price entry_price)
              \<and> (kept_above e (fmul (atr_multiplier_tp cfg) atr_v) \<longrightarrow> flt entry_price tp_price))
       \<and> (case price_levels cfg ''sell'' \<lparr>bid = Fin e, ask = a\<rparr> atr_v of
            (entry_price, sl_price, tp_price) \<Rightarrow>
              entry_price = Fin e \<and> fle tp_price entry_price \<and> fle entry_price sl_price
              \<and> (kept_below e (fmul (atr_multiplier_tp cfg) atr_v) \<longrightarrow> flt tp_price entry_price)
              \<and> (kept_above e (fmul (atr_multiplier_sl cfg) atr_v) \<longrightarrow> flt entry_price sl_price))"
proof -
  have sl: "fle (Fin 0) (fmul (atr_multiplier_sl cfg) atr_v)"
    using assms(3,2) by (rule fmul_positive)
  have tp: "fle (Fin 0) (fmul (atr_multiplier_tp cfg) atr_v)"
    using assms(4,2) by (rule fmul_positive)
  show ?thesis
    using fsub_le[OF assms(1) sl] fadd_ge[OF assms(1) sl]
      fsub_le[OF assms(1) tp] fadd_ge[OF assms(1) tp]
      fsub_lt[OF assms(1)] fadd_gt[OF assms(1)]
    by (simp add: price_levels_def Let_def)
qed

text \<open>
  At an entry price of 150 and an ATR of 0.25 the levels are 149.625 and 150.75 for a buy,
  150.375 and 149.25 for a sell: all four are doubles, so every distance is kept and the
  bracket is strict.
\<close>

theorem price_levels_bracket_witness:
  "(case price_levels cfg0 ''buy'' \<lparr>bid = Fin 150, ask = Fin 150\<rparr> (Fin (1 / 4)) of
      (entry_price, sl_price, tp_price) \<Rightarrow>
        entry_price = Fin 150 \<and> flt sl_price entry_price \<and> flt entry_price tp_price)
   \<and> (case price_levels cfg0 ''sell'' \<lparr>bid = Fin 150, ask = Fin 150\<rparr> (Fin (1 / 4)) of
      (entry_price, sl_price, tp_price) \<Rightarrow>
        entry_price = Fin 150 \<and> flt tp_price entry_price \<and> flt entry_price sl_price)"
proof -
  have h: "is_double 150" "flt (Fin 0) (Fin (1 / 4))"
    "flt (Fin 0) (atr_multiplier_sl cfg0)" "flt (Fin 0) (atr_multiplier_tp cfg0)"
    by (simp_all add: cfg0_def float_eval)
  have sl: "fmul (atr_multiplier_sl cfg0) (Fin (1 / 4)) = Fin (3 / 8)"
    and tp: "fmul (atr_multiplier_tp cfg0) (Fin (1 / 4)) = Fin (3 / 4)"
    by (simp_all add: cfg0_def float_eval)
  have k: "kept_below 150 (fmul (atr_multiplier_sl cfg0) (Fin (1 / 4)))"
    "kept_above 150 (fmul (atr_multiplier_tp cfg0) (Fin (1 / 4)))"
    "kept_below 150 (fmul (atr_multiplier_tp cfg0) (Fin (1 / 4)))"
    "kept_above 150 (fmul (atr_multiplier_sl cfg0) (Fin (1 / 4)))"
       apply (rule kept_belowI[OF sl, of "1197 / 8"]; simp add: float_eval)
      apply (rule kept_aboveI[OF tp, of "603 / 4"]; simp add: float_eval)
     apply (rule kept_belowI[OF tp, of "597 / 4"]; simp add: float_eval)
    apply (rule kept_aboveI[OF sl, of "1203 / 8"]; simp add: float_eval)
    done
  from price_levels_bracket[OF h, of "Fin 150" "Fin 150"] k show ?thesis
    by (auto split: prod.splits)
qed

theorem strict_bracket_counterexample:
  "is_double 150 \<and> is_double (1 / 2 ^ 50) \<and> is_double (3 / 2) \<and> is_double 3
   \<and> flt (Fin 0) (Fin (1 / 2 ^ 50))
   \<and> flt (Fin 0) (atr_multiplier_sl cfg0) \<and> flt (Fin 0) (atr_multiplier_tp cfg0)
   \<and> price_levels cfg0 ''buy'' tick0 (Fin (1 / 2 ^ 50)) = (Fin 150, Fin 150, Fin 150)
   \<and> \<not> flt (Fin 150) (Fin 150)
   \<and> EstimateLots ''USDJPY'' (Fin 150) (Fin 150) \<in> set (events (cycle prog0 None env_tiny_atr))"
  by (simp add: env_tiny_atr_def run_defs scenario_defs float_eval)

lemma place_order_dry:
  assumes "dry_run (CONFIG prog)"
    and "place_order_head prog = place_order_head_spec (dry_run (CONFIG prog))"
  shows "place_order prog env symb side lots price sl tp = (Inr Simulated, [])"
  using assms by (simp add: place_order_def place_order_head_spec_def)

text \<open>
  Claim C5, for the head of \<open>place_order\<close> as the spec describes it: with \<open>dry_run\<close>
  set, \<open>place_order\<close> returns the simulated result without any effect, and no iteration
  of the loop reaches \<open>order_send\<close>.
\<close>

theorem dry_run_skips_submission:
  assumes "dry_run (CONFIG prog)"
    and "place_order_head prog = place_order_head_spec (dry_run (CONFIG prog))"
  shows "place_order prog env symb side lots price sl tp = (Inr Simulated, [])
       \<and> \<not> list_ex is_order_send (events (cycle prog ltt env))"
  using place_order_dry[OF assms]
  by (simp add: cycle_def trade_def end_iteration_def raised_def after_def Let_def
      split: option.splits sum.splits prod.splits)

theorem dry_run_skips_submission_witness:
  "place_order prog_dry env_buy ''USDJPY'' ''buy'' (Fin (1 / 2)) (Fin 150) (Fin (1197 / 8)) (Fin (603 / 4))
     = (Inr Simulated, [])
   \<and> \<not> list_ex is_order_send (events (cycle prog_dry None env_buy))"
  by (rule dry_run_skips_submission) (simp_all add: prog_dry_def cfg0_def)

lemma trade_last_trade_time:
  "last_trade_time (trade prog env ltt df s) =
     (if list_ex is_place_order_return (events (trade prog env ltt df s))
      then Some (now_after_order env) else ltt)"
  by (auto simp add: trade_def end_iteration_def raised_def Let_def
      split: sum.splits prod.splits dest: place_order_events)

text \<open>
  Claim C6: an iteration sets \<open>last_trade_time\<close> to the clock read after the order when
  \<open>place_order\<close> has returned, whatever it returned, and leaves it as it was in every
  other case.
\<close>

theorem last_trade_time_updated_iff_place_order_returned:
  "last_trade_time (cycle prog ltt env) =
     (if list_ex is_place_order_return (events (cycle prog ltt env))
      then Some (now_after_order env) else ltt)"
  using trade_last_trade_time[of prog env ltt]
  by (simp add: cycle_def end_iteration_def raised_def after_def Let_def
      split: option.splits sum.splits)

theorem last_trade_time_updated_witness:
  "last_trade_time (cycle prog0 None env_rejected) = Some 100500000"
  using last_trade_time_updated_iff_place_order_returned[of prog0 None env_rejected]
  by (simp add: env_rejected_def run_defs scenario_defs float_eval)

text \<open>
  Claim C7: when \<open>order_send\<close> returns a result, \<open>place_order\<close> sends the request once,
  prints the success line if and only if the return code is \<open>TRADE_RETCODE_DONE\<close> and
  the failure line with the code and the comment otherwise, and returns the result without
  raising. An iteration that sends a request sends exactly one and goes on to the next
  iteration after its sleep (unless the sleep itself is interrupted).
\<close>

theorem order_result_classification:
  assumes "place_order_head prog symb side lots price sl tp = HeadBuilds request"
    and "order_send env = Inr result"
  shows "place_order prog env symb side lots price sl tp =
           (Inr (Broker result),
            [OrderSend request,
             Print (if retcode result = TRADE_RETCODE_DONE prog
                    then OrderPlaced (order result) lots price
                    else OrderFailed (retcode result) (comment result))])
       \<and> (list_ex is_order_send (events (cycle prog ltt env)) \<longrightarrow>
            length (filter is_order_send (events (cycle prog ltt env))) = 1
            \<and> ctl (cycle prog ltt env) = (case sleep env of None \<Rightarrow> Continue | Some e \<Rightarrow> Raise e))"
proof -
  have a: "place_order prog env symb side lots price sl tp =
           (Inr (Broker result),
            [OrderSend request,
             Print (if retcode result = TRADE_RETCODE_DONE prog
                    then OrderPlaced (order result) lots price
                    else OrderFailed (retcode result) (comment result))])"
    using assms by (simp add: place_order_def)
  have b: "list_ex is_order_send (events (cycle prog ltt env)) \<longrightarrow>
            length (filter is_order_send (events (cycle prog ltt env))) = 1
            \<and> ctl (cycle prog ltt env) = (case sleep env of None \<Rightarrow> Continue | Some e \<Rightarrow> Raise e)"
    using assms(2)
    by (auto simp add: cycle_def trade_def end_iteration_def raised_def after_def Let_def
          place_order_def list_ex_iff
        split: option.splits sum.splits prod.splits head_outcome.splits)
  from a b show ?thesis by simp
qed

theorem order_result_classification_witness:
  "place_order prog0 env_rejected ''USDJPY'' ''buy'' (Fin (1 / 2)) (Fin 150) (Fin (1197 / 8)) (Fin (603 / 4)) =
     (Inr (Broker \<lparr>retcode = 10030, comment = ''Unsupported filling mode'', order = 0\<rparr>),
      [OrderSend \<lparr>req_symbol = ''USDJPY'', req_side = ''buy'', req_volume = Fin (1 / 2),
                  req_price = Fin 150, req_sl = Fin (1197 / 8), req_tp = Fin (603 / 4)\<rparr>,
       Print (OrderFailed 10030 ''Unsupported filling mode'')])
   \<and> length (filter is_order_send (events (cycle prog0 None env_rejected))) = 1
   \<and> ctl (cycle prog0 None env_rejected) = Continue"
  using order_result_classification[of prog0 "''USDJPY''" "''buy''" "Fin (1 / 2)" "Fin 150"
      "Fin (1197 / 8)" "Fin (603 / 4)"
      "\<lparr>req_symbol = ''USDJPY'', req_side = ''buy'', req_volume = Fin (1 / 2),
        req_price = Fin 150, req_sl = Fin (1197 / 8), req_tp = Fin (603 / 4)\<rparr>"
      env_rejected "\<lparr>retcode = 10030, comment = ''Unsupported filling mode'', order = 0\<rparr>" None]
  by (simp add: env_rejected_def run_defs scenario_defs float_eval)

text \<open>
  Claim C8: when the size that \<open>estimate_lots_by_sl\<close> returns is \<open>\<le> 0\<close>, the iteration
  calls neither \<open>place_order\<close> nor \<open>order_send\<close>, leaves \<open>last_trade_time\<close> as it was,
  prints the skip line, sleeps 5 seconds and goes on to the next iteration (unless the
  sleep itself is interrupted).
\<close>

theorem nonpositive_lots_skip_cycle:
  assumes "list_ex is_estimate_lots (events (cycle prog ltt env))"
    and "estimate_lots_by_sl env = Inr lots" and "fle lots (Fin 0)"
  shows "\<not> list_ex is_submission (events (cycle prog ltt env))
       \<and> last_trade_time (cycle prog ltt env) = ltt
       \<and> ctl (cycle prog ltt env) = (case sleep env of None \<Rightarrow> Continue | Some e \<Rightarrow> Raise e)
       \<and> drop (length (events (cycle prog ltt env)) - 2) (events (cycle prog ltt env)) =
           [Print (Text ''Calculated lots <= 0, skip''), Sleep 5]"
  using assms
  by (auto simp add: cycle_def trade_def end_iteration_def raised_def after_def Let_def
      split: option.splits sum.splits prod.splits if_splits)

theorem nonpositive_lots_skip_cycle_witness:
  "\<not> list_ex is_submission (events (cycle prog0 None env_zero_lots))
   \<and> last_trade_time (cycle prog0 None env_zero_lots) = None
   \<and> ctl (cycle prog0 None env_zero_lots) = (case sleep env_zero_lots of None \<Rightarrow> Continue | Some e \<Rightarrow> Raise e)
   \<and> drop (length (events (cycle prog0 None env_zero_lots)) - 2) (events (cycle prog0 None env_zero_lots)) =
       [Print (Text ''Calculated lots <= 0, skip''), Sleep 5]"
  by (rule nonpositive_lots_skip_cycle[where lots = "Fin 0"])
     (simp_all add: env_zero_lots_def run_defs scenario_defs float_eval)

section \<open>Claims about the life of the loop\<close>

lemma place_order_no_disconnect:
  "place_order prog env symb side lots price sl tp = (r, pevs) \<Longrightarrow> DisconnectMt5 \<notin> set pevs"
  by (auto simp add: place_order_def split: head_outcome.splits sum.splits)

lemma trade_no_disconnect: "DisconnectMt5 \<notin> set (events (trade prog env ltt df s))"
  by (auto simp add: trade_def end_iteration_def raised_def Let_def
      split: sum.splits prod.splits dest: place_order_no_disconnect)

lemma cycle_no_disconnect: "DisconnectMt5 \<notin> set (events (cycle prog ltt env))"
  using trade_no_disconnect[of prog env ltt]
  by (simp add: cycle_def end_iteration_def raised_def after_def Let_def
      split: option.splits sum.splits)

lemma run_cycles_no_disconnect:
  "run_cycles prog ltt envs = Some (e, ltt', evs) \<Longrightarrow> DisconnectMt5 \<notin> set evs"
proof (induction envs arbitrary: ltt e ltt' evs)
  case Nil
  then show ?case by simp
next
  case (Cons env envs)
  show ?case
  proof (cases "ctl (cycle prog ltt env)")
    case Continue
    with Cons.prems obtain evs' where
      r: "run_cycles prog (last_trade_time (cycle prog ltt env)) envs = Some (e, ltt', evs')"
      and evs: "evs = events (cycle prog ltt env) @ evs'"
      by (auto simp add: Let_def split: option.splits)
    from r have "DisconnectMt5 \<notin> set evs'" by (rule Cons.IH)
    then show ?thesis using cycle_no_disconnect[of prog ltt env] by (simp add: evs)
  next
    case (Raise x)
    with Cons.prems have "evs = events (cycle prog ltt env)" by (simp add: Let_def)
    then show ?thesis using cycle_no_disconnect[of prog ltt env] by simp
  qed
qed

text \<open>The loop leaves as soon as an iteration raises, whatever the exception.\<close>

lemma run_cycles_raise:
  "ctl (cycle prog ltt env) = Raise e \<Longrightarrow>
     run_cycles prog ltt (env # envs) =
       Some (e, last_trade_time (cycle prog ltt env), events (cycle prog ltt env))"
  by (simp add: Let_def)

text \<open>Once the loop has ended, the answers of later iterations change nothing.\<close>

lemma run_cycles_more_answers:
  "run_cycles prog ltt envs = Some r \<Longrightarrow> run_cycles prog ltt (envs @ later) = Some r"
proof (induction envs arbitrary: ltt r)
  case Nil
  then show ?case by simp
next
  case (Cons env envs)
  show ?case
  proof (cases "ctl (cycle prog ltt env)")
    case Continue
    with Cons.prems obtain r' where
      r': "run_cycles prog (last_trade_time (cycle prog ltt env)) envs = Some r'"
      by (auto simp add: Let_def split: option.splits)
    from r' have "run_cycles prog (last_trade_time (cycle prog ltt env)) (envs @ later) = Some r'"
      by (rule Cons.IH)
    with Cons.prems Continue r' show ?thesis by (simp add: Let_def)
  next
    case (Raise x)
    with Cons.prems show ?thesis by (simp add: Let_def)
  qed
qed

lemma main_loop_returns:
  assumes "run_cycles prog ltt envs = Some r"
  shows "\<exists>out. main_loop prog None disconnect_mt5 ltt envs = Some out"
  using assms by (cases r) (simp add: main_loop_def Let_def split: option.splits)

lemma main_loop_interrupted:
  "main_loop prog0 None None None [env_buy, env_interrupted] =
    Some (Returned, Some 100500000,
     [ConnectMt5, Print (Text ''Connected to MT5''),
      FetchOhlc ''USDJPY'' 15 500, CalcIndicators, GenerateSignal,
      Print (SignalLine (Some ''buy'')), CountOpenPositions ''USDJPY'',
      SymbolInfoTick ''USDJPY'',
      EstimateLots ''USDJPY'' (Fin 150) (Fin (1197 / 8)),
      PlaceOrder ''USDJPY'' ''buy'' (Fin (1 / 2)) (Fin 150) (Fin (1197 / 8)) (Fin (603 / 4)),
      OrderSend
       \<lparr>req_symbol = ''USDJPY'', req_side = ''buy'', req_volume = Fin (1 / 2),
          req_price = Fin 150, req_sl = Fin (1197 / 8), req_tp = Fin (603 / 4)\<rparr>,
      Print (OrderPlaced 7 (Fin (1 / 2)) (Fin 150)),
      PlaceOrderReturn
       (Broker \<lparr>retcode = 10009, comment = ''Request executed'', order = 7\<rparr>),
      Sleep 10, FetchOhlc ''USDJPY'' 15 500, CalcIndicators, GenerateSignal,
      Print (SignalLine (Some ''buy'')),
      Print (Text ''Waiting due to min_seconds_between_trades''), Sleep 5,
      Print (Text ''Interrupted by user''), DisconnectMt5,
      Print (Text ''Disconnected'')])"
  by (simp add: main_loop_def env_interrupted_def run_defs scenario_defs float_eval)

text \<open>
  Claim C9: whenever \<open>main_loop\<close> ends after a successful connect, by an interrupt or by
  any other exception of an iteration, \<open>disconnect_mt5\<close> has been called exactly once,
  after every effect of the loop; only the line printed after it can follow.
\<close>

theorem disconnect_on_every_exit:
  assumes "main_loop prog None disconnect_mt5 ltt envs = Some (ex, ltt', evs)"
  shows "released_at_exit evs \<and> count_list evs DisconnectMt5 = 1"
proof -
  from assms obtain e cevs where
    r: "run_cycles prog ltt envs = Some (e, ltt', cevs)"
    and evs: "evs = [ConnectMt5, Print (Text ''Connected to MT5'')] @ cevs
        @ (if e = KeyboardInterrupt then [Print (Text ''Interrupted by user'')] else [])
        @ [DisconnectMt5]
        @ (case disconnect_mt5 of None \<Rightarrow> [Print (Text ''Disconnected'')] | Some e' \<Rightarrow> [])"
    by (auto simp add: main_loop_def Let_def split: option.splits)
  from r have "DisconnectMt5 \<notin> set cevs" by (rule run_cycles_no_disconnect)
  then have "count_list cevs DisconnectMt5 = 0" by (simp add: count_list_0_iff)
  then have c: "count_list evs DisconnectMt5 = 1"
    by (simp add: evs split: option.splits)
  have "released_at_exit evs"
    by (simp add: evs released_at_exit_def split: option.splits)
  with c show ?thesis by simp
qed

theorem disconnect_on_every_exit_witness:
  "(case main_loop prog0 None None None [env_buy, env_interrupted] of
      None \<Rightarrow> False
    | Some (ex, ltt', evs) \<Rightarrow>
        ex = Returned \<and> released_at_exit evs \<and> count_list evs DisconnectMt5 = 1)"
  using disconnect_on_every_exit[OF main_loop_interrupted]
  by (simp add: main_loop_interrupted)

text \<open>
  Claim C10: with \<open>last_trade_time\<close> unset, the time gate does not reject, whatever
  \<open>min_seconds_between_trades\<close> is: an iteration with a signal, fewer open positions than
  \<open>max_positions\<close>, a valid ATR and a positive size calls \<open>place_order\<close>.
\<close>

theorem first_trade_not_throttled:
  assumes "fetch_ohlc env = None" and "calc_indicators env = Inr df"
    and "generate_signal env = Inr (Some s)"
    and "count_open_positions env = Inr n" and "n < max_positions (CONFIG prog)"
    and "df \<noteq> []" and "\<not> isnan (atr (last df))" and "\<not> fle (atr (last df)) (Fin 0)"
    and "symbol_info_tick env = Inr tk"
    and "price_levels (CONFIG prog) s tk (atr (last df)) = (entry_price, sl_price, tp_price)"
    and "estimate_lots_by_sl env = Inr lots" and "\<not> fle lots (Fin 0)"
  shows "\<not> throttled (CONFIG prog) None (now env)
       \<and> Print (Text ''Waiting due to min_seconds_between_trades'')
           \<notin> set (events (cycle prog None env))
       \<and> PlaceOrder (symbol (CONFIG prog)) s lots entry_price sl_price tp_price
           \<in> set (events (cycle prog None env))"
  using assms
  by (auto simp add: cycle_def trade_def throttled_def end_iteration_def raised_def after_def
        Let_def place_order_def
      split: sum.splits prod.splits head_outcome.splits)

theorem first_trade_not_throttled_witness:
  "\<not> throttled (CONFIG prog_never) None (now env_buy)
   \<and> Print (Text ''Waiting due to min_seconds_between_trades'')
       \<notin> set (events (cycle prog_never None env_buy))
   \<and> PlaceOrder (symbol (CONFIG prog_never)) ''buy'' (Fin (1 / 2)) (Fin 150) (Fin (1197 / 8)) (Fin (603 / 4))
       \<in> set (events (cycle prog_never None env_buy))"
  by (rule first_trade_not_throttled[where df = "[\<lparr>close = Fin 150, atr = Fin (1 / 4)\<rparr>]"
        and n = 0 and tk = tick0])
     (simp_all add: prog_never_def price_levels_def scenario_defs float_eval)

end
